theory Spec2Isabelle
  imports Complex_Main
begin

section \<open>Data of the request-instrumentation pipeline\<close>

text \<open>
  The development embeds \<^verbatim>\<open>app/metrics.py\<close> (the three module-level metrics and
  \<^verbatim>\<open>PrometheusMiddleware.dispatch\<close>) and the log processor \<^verbatim>\<open>add_trace_context\<close> of
  \<^verbatim>\<open>app/main.py\<close>.

  Modelling decisions.
  \<^item> A raised Python exception is a value \<open>Exception text\<close>; what a call produces is an
    \<open>outcome\<close>: \<open>Returned\<close> or \<open>Raised\<close>.
  \<^item> \<^verbatim>\<open>time.perf_counter()\<close> reads the field \<open>clock\<close> of the world; its readings are
    real numbers (floating-point rounding is not modelled).
  \<^item> A labelled metric is the association list of its series in creation order, as the
    dictionary of children that \<^verbatim>\<open>prometheus_client\<close> keeps. A counter series holds a
    natural number, a histogram series the list of its observations (buckets, sum and
    count are functions of that list), the gauge an integer.
  \<^item> A response carries \<open>status_code\<close> as an option: \<open>None\<close> is an object without that
    attribute, the case the default of \<^verbatim>\<open>getattr(response, "status_code", 500)\<close> is for.
  \<^item> The clock advances while the downstream call runs; the metric calls themselves
    take no time on it.
\<close>

datatype exn = Exception string

record response =
  status_code :: "int option"
  content :: string

datatype outcome = Returned response | Raised exn

record request =
  request_method :: string
  url_path :: string

type_synonym count_labels = "string \<times> string \<times> string"

type_synonym latency_labels = "string \<times> string"

record registry =
  REQUEST_COUNT :: "(count_labels \<times> nat) list"
  REQUEST_LATENCY :: "(latency_labels \<times> real list) list"
  INPROGRESS :: int

record world =
  clock :: real
  reg :: registry

text \<open>The registry as the module leaves it at import time: no series yet, gauge at zero.\<close>

definition registry0 :: registry where
  "registry0 = \<lparr>REQUEST_COUNT = [], REQUEST_LATENCY = [], INPROGRESS = 0\<rparr>"

section \<open>The metric calls\<close>

text \<open>
  \<^verbatim>\<open>M.labels(...).inc()\<close> on a counter: the series of these label values is created at
  zero when it does not exist yet, then incremented by one.
\<close>

fun labels_inc :: "'k \<Rightarrow> ('k \<times> nat) list \<Rightarrow> ('k \<times> nat) list" where
  "labels_inc k [] = [(k, 1)]"
| "labels_inc k ((k', v) # xs) =
     (if k' = k then (k', v + 1) # xs else (k', v) # labels_inc k xs)"

text \<open>\<^verbatim>\<open>M.labels(...).observe(d)\<close> on a histogram: the observation joins its series.\<close>

fun labels_observe :: "'k \<Rightarrow> real \<Rightarrow> ('k \<times> real list) list \<Rightarrow> ('k \<times> real list) list" where
  "labels_observe k d [] = [(k, [d])]"
| "labels_observe k d ((k', ds) # xs) =
     (if k' = k then (k', ds @ [d]) # xs else (k', ds) # labels_observe k d xs)"

text \<open>
  The four metric-recording calls that \<^verbatim>\<open>dispatch\<close> makes. They are calls into
  \<^verbatim>\<open>prometheus_client\<close>, which is not part of the repository, so \<open>dispatch\<close> takes them
  as a parameter: each either raises (\<open>Inl\<close>, the registry left as it was) or returns the
  updated registry.
\<close>

record metrics =
  inprogress_inc :: "registry \<Rightarrow> exn + registry"
  request_count_inc :: "count_labels \<Rightarrow> registry \<Rightarrow> exn + registry"
  request_latency_observe :: "latency_labels \<Rightarrow> real \<Rightarrow> registry \<Rightarrow> exn + registry"
  inprogress_dec :: "registry \<Rightarrow> exn + registry"

text \<open>
  The calls as the module sets them up: \<open>REQUEST_COUNT\<close> is registered with the label names
  method, path, status_code and \<open>REQUEST_LATENCY\<close> with method, path, exactly the keywords
  that \<open>dispatch\<close> passes, and \<open>INPROGRESS\<close> has no labels; none of these calls raises.
\<close>

definition prometheus :: metrics where
  "prometheus =
     \<lparr>inprogress_inc = (\<lambda>r. Inr (r\<lparr>INPROGRESS := INPROGRESS r + 1\<rparr>)),
      request_count_inc = (\<lambda>k r. Inr (r\<lparr>REQUEST_COUNT := labels_inc k (REQUEST_COUNT r)\<rparr>)),
      request_latency_observe =
        (\<lambda>k d r. Inr (r\<lparr>REQUEST_LATENCY := labels_observe k d (REQUEST_LATENCY r)\<rparr>)),
      inprogress_dec = (\<lambda>r. Inr (r\<lparr>INPROGRESS := INPROGRESS r - 1\<rparr>))\<rparr>"

section \<open>Python's \<^verbatim>\<open>str\<close> on an integer\<close>

function digits10 :: "nat \<Rightarrow> string" where
  "digits10 n =
     (if n < 10 then [''0123456789'' ! n]
      else digits10 (n div 10) @ [''0123456789'' ! (n mod 10)])"
  by pat_completeness auto
termination
  by (relation "measure id") auto

declare digits10.simps [simp del]

definition str :: "int \<Rightarrow> string" where
  "str i = (if i < 0 then CHR ''-'' # digits10 (nat (- i)) else digits10 (nat i))"

section \<open>\<^verbatim>\<open>PrometheusMiddleware.dispatch\<close>\<close>

definition getattr_status_code :: "response \<Rightarrow> int \<Rightarrow> int" where
  "getattr_status_code response dflt =
     (case status_code response of None \<Rightarrow> dflt | Some s \<Rightarrow> s)"

text \<open>
  The body of the \<^verbatim>\<open>try\<close> after \<^verbatim>\<open>await call_next(request)\<close> has resolved with
  \<open>out\<close>: a raised exception leaves the body at once; a response is counted and returned.
  The result is the outcome pending when the \<^verbatim>\<open>finally\<close> clause starts.
\<close>

definition try_body :: "metrics \<Rightarrow> string \<Rightarrow> string \<Rightarrow> outcome \<Rightarrow> registry \<Rightarrow> outcome \<times> registry" where
  "try_body M method path out r =
     (case out of
        Raised e \<Rightarrow> (Raised e, r)
      | Returned response \<Rightarrow>
          (let status = getattr_status_code response 500 in
           case request_count_inc M (method, path, str status) r of
             Inl e \<Rightarrow> (Raised e, r)
           | Inr r' \<Rightarrow> (Returned response, r')))"

text \<open>
  The \<^verbatim>\<open>finally\<close> clause, entered at clock reading \<open>now\<close> with the outcome \<open>pending\<close>.
  An exception raised inside the clause replaces the pending outcome and skips the rest
  of the clause.
\<close>

definition finally_clause ::
  "metrics \<Rightarrow> string \<Rightarrow> string \<Rightarrow> real \<Rightarrow> real \<Rightarrow> outcome \<Rightarrow> registry \<Rightarrow> outcome \<times> registry" where
  "finally_clause M method path start now pending r =
     (let duration = now - start in
      case request_latency_observe M (method, path) duration r of
        Inl e \<Rightarrow> (Raised e, r)
      | Inr r1 \<Rightarrow>
          (case inprogress_dec M r1 of
             Inl e \<Rightarrow> (Raised e, r1)
           | Inr r2 \<Rightarrow> (pending, r2)))"

text \<open>
  \<open>call_next\<close> is the rest of the pipeline: given the request and the world at the moment
  it is called, it yields its outcome and the world at the moment it resolves (the clock
  has advanced; whatever ran meanwhile may have changed the registry).
\<close>

definition dispatch ::
  "metrics \<Rightarrow> (request \<Rightarrow> world \<Rightarrow> outcome \<times> world) \<Rightarrow> request \<Rightarrow> world \<Rightarrow> outcome \<times> world" where
  "dispatch M call_next request w =
     (let method = request_method request;
          path = url_path request
      in if path = ''/metrics'' then call_next request w
         else
           let start = clock w in
           case inprogress_inc M (reg w) of
             Inl e \<Rightarrow> (Raised e, w)
           | Inr r1 \<Rightarrow>
               (let (out, w2) = call_next request (w\<lparr>reg := r1\<rparr>);
                    (pending, r3) = try_body M method path out (reg w2);
                    (final, r4) = finally_clause M method path start (clock w2) pending r3
                in (final, w2\<lparr>reg := r4\<rparr>)))"

section \<open>Requests in flight at the same time\<close>

text \<open>
  \<open>dispatch\<close> is a coroutine with one suspension point, \<^verbatim>\<open>await call_next(request)\<close>;
  on the event loop, the code before it and the code after it each run without
  interruption, and other requests run in between. \<open>dispatch_enter\<close> is the code up to the
  suspension point, run at clock reading \<open>now\<close>: it yields the suspended frame (which
  branch is waiting, and on the measured branch the locals method, path, start).
  \<open>dispatch_resume\<close> is the code from the moment the awaited call resolves with \<open>out\<close>.
  Lemma \<open>dispatch_split\<close> below shows that \<open>dispatch\<close> is the one, the downstream call
  and the other in sequence.
\<close>

datatype frame = Bypass | Measured string string real

definition dispatch_enter :: "metrics \<Rightarrow> request \<Rightarrow> real \<Rightarrow> registry \<Rightarrow> exn + frame \<times> registry" where
  "dispatch_enter M request now r =
     (let method = request_method request;
          path = url_path request
      in if path = ''/metrics'' then Inr (Bypass, r)
         else
           let start = now in
           case inprogress_inc M r of
             Inl e \<Rightarrow> Inl e
           | Inr r1 \<Rightarrow> Inr (Measured method path start, r1))"

definition dispatch_resume :: "metrics \<Rightarrow> frame \<Rightarrow> outcome \<Rightarrow> real \<Rightarrow> registry \<Rightarrow> outcome \<times> registry" where
  "dispatch_resume M f out now r =
     (case f of
        Bypass \<Rightarrow> (out, r)
      | Measured method path start \<Rightarrow>
          (let (pending, r3) = try_body M method path out r
           in finally_clause M method path start now pending r3))"

text \<open>
  A serving process: the registry and the frames of the requests in flight. An event is
  the arrival of a request, or the resolution of the awaited call of the \<open>i\<close>-th frame in
  flight; each carries the clock reading of its moment. The handlers of this application
  (\<^verbatim>\<open>healthz\<close>, \<^verbatim>\<open>work\<close>, \<^verbatim>\<open>downstream\<close>, \<^verbatim>\<open>db_simulated\<close>) do not write to the
  registry and \<^verbatim>\<open>metrics\<close> only reads it, so between two events the registry stays as
  it is. A resolution that names no frame in flight is no event of the process and
  changes nothing.
\<close>

datatype event = Arrive request real | Resolve nat outcome real

record server =
  series :: registry
  in_flight :: "frame list"

fun step :: "metrics \<Rightarrow> server \<Rightarrow> event \<Rightarrow> server" where
  "step M s (Arrive request now) =
     (case dispatch_enter M request now (series s) of
        Inl e \<Rightarrow> s
      | Inr (f, r1) \<Rightarrow> s\<lparr>series := r1, in_flight := in_flight s @ [f]\<rparr>)"
| "step M s (Resolve i out now) =
     (if i < length (in_flight s)
      then s\<lparr>series := snd (dispatch_resume M (in_flight s ! i) out now (series s)),
             in_flight := take i (in_flight s) @ drop (Suc i) (in_flight s)\<rparr>
      else s)"

definition run :: "metrics \<Rightarrow> server \<Rightarrow> event list \<Rightarrow> server" where
  "run M s evs = foldl (step M) s evs"

definition server0 :: server where
  "server0 = \<lparr>series = registry0, in_flight = []\<rparr>"

section \<open>Reading the registry\<close>

definition count_value :: "registry \<Rightarrow> count_labels \<Rightarrow> nat" where
  "count_value r k = (case map_of (REQUEST_COUNT r) k of None \<Rightarrow> 0 | Some v \<Rightarrow> v)"

definition observations :: "registry \<Rightarrow> latency_labels \<Rightarrow> real list" where
  "observations r k = (case map_of (REQUEST_LATENCY r) k of None \<Rightarrow> [] | Some ds \<Rightarrow> ds)"

text \<open>The number of measured requests among the frames in flight.\<close>

fun is_measured :: "frame \<Rightarrow> bool" where
  "is_measured Bypass = False"
| "is_measured (Measured method path start) = True"

definition measured :: "frame list \<Rightarrow> nat" where
  "measured fs = length (filter is_measured fs)"

text \<open>
  \<open>http_requests_total\<close> of a method and a path, summed over the status codes; the number
  of observations of \<open>http_request_duration_seconds\<close> of a method and a path.
\<close>

definition count_total :: "registry \<Rightarrow> string \<Rightarrow> string \<Rightarrow> nat" where
  "count_total r method path =
     sum_list (map snd (filter (\<lambda>((m, p, s), v). m = method \<and> p = path) (REQUEST_COUNT r)))"

definition latency_count :: "registry \<Rightarrow> string \<Rightarrow> string \<Rightarrow> nat" where
  "latency_count r method path = length (observations r (method, path))"

text \<open>The paths that occur as label values of the two labelled metrics.\<close>

definition count_paths :: "registry \<Rightarrow> string set" where
  "count_paths r = (\<lambda>((m, p, s), v). p) ` set (REQUEST_COUNT r)"

definition latency_paths :: "registry \<Rightarrow> string set" where
  "latency_paths r = (\<lambda>((m, p), ds). p) ` set (REQUEST_LATENCY r)"

section \<open>The log processor \<^verbatim>\<open>add_trace_context\<close>\<close>

text \<open>
  The values of an event dictionary: the keyword arguments of a log call (numbers,
  strings) and the strings the processor adds. The span context is what
  \<^verbatim>\<open>trace.get_current_span().get_span_context()\<close> returns: the identifiers as Python
  integers and the flag \<^verbatim>\<open>is_valid\<close> that the tracing library computes.
\<close>

datatype pyval = PyStr string | PyInt int | PyFloat real

record span_context =
  trace_id :: int
  span_id :: int
  is_valid :: bool

text \<open>
  \<^verbatim>\<open>format(n, "0Wx")\<close>: lowercase hexadecimal digits, padded with zeros after the sign
  to the width \<open>W\<close>; a longer rendering is not shortened.
\<close>

function hex_digits :: "nat \<Rightarrow> string" where
  "hex_digits n =
     (if n < 16 then [''0123456789abcdef'' ! n]
      else hex_digits (n div 16) @ [''0123456789abcdef'' ! (n mod 16)])"
  by pat_completeness auto
termination
  by (relation "measure id") auto

declare hex_digits.simps [simp del]

definition format_0x :: "nat \<Rightarrow> int \<Rightarrow> string" where
  "format_0x width n =
     (if n < 0
      then CHR ''-'' # replicate (width - 1 - length (hex_digits (nat (- n)))) CHR ''0''
             @ hex_digits (nat (- n))
      else replicate (width - length (hex_digits (nat n))) CHR ''0'' @ hex_digits (nat n))"

text \<open>
  The processor. Its arguments \<^verbatim>\<open>logger\<close> and \<^verbatim>\<open>method_name\<close> are not used; the span
  context it reads from the ambient tracer is the argument \<open>ctx\<close>, with \<open>None\<close> for a
  context that is false in the test \<^verbatim>\<open>if ctx and ctx.is_valid\<close>.
\<close>

definition add_trace_context ::
  "span_context option \<Rightarrow> (string \<rightharpoonup> pyval) \<Rightarrow> (string \<rightharpoonup> pyval)" where
  "add_trace_context ctx event_dict =
     (case ctx of
        None \<Rightarrow> event_dict
      | Some c \<Rightarrow>
          if is_valid c
          then (event_dict(''trace_id'' \<mapsto> PyStr (format_0x 32 (trace_id c))))
                 (''span_id'' \<mapsto> PyStr (format_0x 16 (span_id c)))
          else event_dict)"

text \<open>
  The log calls of \<^verbatim>\<open>app/main.py\<close>: \<^verbatim>\<open>log.info("work_done", cpu_ms=..., mem_mb=...,
  elapsed=..., iters=...)\<close> in \<^verbatim>\<open>work\<close> and \<^verbatim>\<open>log.error("downstream_error",
  error=...)\<close> in \<^verbatim>\<open>downstream\<close>. The logger is created without bound values, so
  the event dictionary that reaches the processor holds the keyword arguments of the call
  and the event name under the key \<^verbatim>\<open>event\<close>. The emitted record is the rendering of
  the dictionary the processor returns: its fields are the keys of that dictionary.
\<close>

datatype log_call = Work_done int int real int | Downstream_error string

fun event_dict_of :: "log_call \<Rightarrow> (string \<rightharpoonup> pyval)" where
  "event_dict_of (Work_done cpu_ms mem_mb elapsed iters) =
     [''cpu_ms'' \<mapsto> PyInt cpu_ms, ''mem_mb'' \<mapsto> PyInt mem_mb, ''elapsed'' \<mapsto> PyFloat elapsed,
      ''iters'' \<mapsto> PyInt iters, ''event'' \<mapsto> PyStr ''work_done'']"
| "event_dict_of (Downstream_error error) =
     [''error'' \<mapsto> PyStr error, ''event'' \<mapsto> PyStr ''downstream_error'']"

definition emit :: "span_context option \<Rightarrow> log_call \<Rightarrow> (string \<rightharpoonup> pyval)" where
  "emit ctx call = add_trace_context ctx (event_dict_of call)"

text \<open>Reading a hexadecimal string back, as \<^verbatim>\<open>int(s, 16)\<close> does on lowercase digits.\<close>

definition hex_digit_value :: "char \<Rightarrow> nat" where
  "hex_digit_value c = length (takeWhile (\<lambda>d. d \<noteq> c) ''0123456789abcdef'')"

definition hex_value :: "string \<Rightarrow> nat" where
  "hex_value s = foldl (\<lambda>a c. 16 * a + hex_digit_value c) 0 s"

section \<open>Concrete requests and handlers\<close>

definition world0 :: world where
  "world0 = \<lparr>clock = 0, reg = registry0\<rparr>"

definition get_work :: request where
  "get_work = \<lparr>request_method = ''GET'', url_path = ''/work''\<rparr>"

definition get_healthz :: request where
  "get_healthz = \<lparr>request_method = ''GET'', url_path = ''/healthz''\<rparr>"

definition get_metrics :: request where
  "get_metrics = \<lparr>request_method = ''GET'', url_path = ''/metrics''\<rparr>"

text \<open>
  \<^verbatim>\<open>healthz\<close> of \<^verbatim>\<open>app/main.py\<close> behind the framework: the returned dictionary becomes
  a JSON response with status 200. Here it takes a quarter of a second.
\<close>

definition healthz :: "request \<Rightarrow> world \<Rightarrow> outcome \<times> world" where
  \<open>healthz request w =
     (Returned \<lparr>status_code = Some 200, content = ''{"status":"ok"}''\<rparr>,
      w\<lparr>clock := clock w + 1/4\<rparr>)\<close>

text \<open>A handler that resolves after half a second with a response of status 200.\<close>

definition ok_after_half :: "request \<Rightarrow> world \<Rightarrow> outcome \<times> world" where
  "ok_after_half request w =
     (Returned \<lparr>status_code = Some 200, content = ''done''\<rparr>, w\<lparr>clock := clock w + 1/2\<rparr>)"

text \<open>A handler that raises after half a second.\<close>

definition raising_after_half :: "request \<Rightarrow> world \<Rightarrow> outcome \<times> world" where
  "raising_after_half request w =
     (Raised (Exception ''RuntimeError''), w\<lparr>clock := clock w + 1/2\<rparr>)"

text \<open>
  Metric calls of which one call raises, as a metric registered under other label names
  would: the counter call, the histogram call, the gauge increment, the gauge decrement,
  and the counter and the histogram call both.
\<close>

definition broken_counter :: metrics where
  "broken_counter =
     prometheus\<lparr>request_count_inc := (\<lambda>k r. Inl (Exception ''ValueError''))\<rparr>"

definition broken_histogram :: metrics where
  "broken_histogram =
     prometheus\<lparr>request_latency_observe := (\<lambda>k d r. Inl (Exception ''ValueError''))\<rparr>"

definition broken_gauge_inc :: metrics where
  "broken_gauge_inc = prometheus\<lparr>inprogress_inc := (\<lambda>r. Inl (Exception ''gauge inc''))\<rparr>"

definition broken_gauge_dec :: metrics where
  "broken_gauge_dec = prometheus\<lparr>inprogress_dec := (\<lambda>r. Inl (Exception ''gauge dec''))\<rparr>"

definition broken_counter_and_histogram :: metrics where
  "broken_counter_and_histogram =
     prometheus\<lparr>request_count_inc := (\<lambda>k r. Inl (Exception ''counter'')),
                request_latency_observe := (\<lambda>k d r. Inl (Exception ''histogram''))\<rparr>"

definition get_db :: request where
  "get_db = \<lparr>request_method = ''GET'', url_path = ''/db''\<rparr>"

section \<open>Auxiliary notions of the proofs\<close>

text \<open>What the body of the \<^verbatim>\<open>try\<close> makes of the counter, given the downstream outcome.\<close>

definition counted ::
  "string \<Rightarrow> string \<Rightarrow> outcome \<Rightarrow> (count_labels \<times> nat) list \<Rightarrow> (count_labels \<times> nat) list" where
  "counted method path out xs =
     (case out of
        Raised e \<Rightarrow> xs
      | Returned response \<Rightarrow> labels_inc (method, path, str (getattr_status_code response 500)) xs)"

text \<open>
  The invariant behind the absence of the scrape path among the label values: no series
  and no frame in flight carries it.
\<close>

definition scrape_free :: "server \<Rightarrow> bool" where
  "scrape_free s \<longleftrightarrow>
     ''/metrics'' \<notin> count_paths (series s) \<and> ''/metrics'' \<notin> latency_paths (series s) \<and>
     (\<forall>f \<in> set (in_flight s).
        case f of Bypass \<Rightarrow> True | Measured method path start \<Rightarrow> path \<noteq> ''/metrics'')"

section \<open>Basic facts\<close>

lemma str_200: "str 200 = ''200''"
  by (simp add: str_def digits10.simps)

lemma map_of_labels_inc:
  "map_of (labels_inc k xs) k' =
     (if k' = k then Some (case map_of xs k of None \<Rightarrow> 1 | Some v \<Rightarrow> v + 1) else map_of xs k')"
  by (induction k xs rule: labels_inc.induct) auto

lemma map_of_labels_observe:
  "map_of (labels_observe k d xs) k' =
     (if k' = k then Some (case map_of xs k of None \<Rightarrow> [d] | Some ds \<Rightarrow> ds @ [d])
      else map_of xs k')"
  by (induction k d xs rule: labels_observe.induct) auto

lemma dispatch_bypass:
  "url_path request = ''/metrics'' \<Longrightarrow> dispatch M call_next request w = call_next request w"
  by (simp add: dispatch_def)

lemma inprogress_inc_prometheus:
  "inprogress_inc prometheus r = Inr (r\<lparr>INPROGRESS := INPROGRESS r + 1\<rparr>)"
  by (simp add: prometheus_def)

lemma try_body_prometheus:
  "try_body prometheus method path out r =
     (out, case out of
             Raised e \<Rightarrow> r
           | Returned response \<Rightarrow>
               r\<lparr>REQUEST_COUNT :=
                   labels_inc (method, path, str (getattr_status_code response 500)) (REQUEST_COUNT r)\<rparr>)"
  by (simp add: try_body_def prometheus_def split: outcome.splits)

lemma finally_clause_prometheus:
  "finally_clause prometheus method path start now pending r =
     (pending, r\<lparr>REQUEST_LATENCY := labels_observe (method, path) (now - start) (REQUEST_LATENCY r),
                  INPROGRESS := INPROGRESS r - 1\<rparr>)"
  by (simp add: finally_clause_def prometheus_def)

lemma dispatch_resume_prometheus:
  "dispatch_resume prometheus (Measured method path start) out now r =
     (out, \<lparr>REQUEST_COUNT = counted method path out (REQUEST_COUNT r),
            REQUEST_LATENCY = labels_observe (method, path) (now - start) (REQUEST_LATENCY r),
            INPROGRESS = INPROGRESS r - 1\<rparr>)"
  by (simp add: dispatch_resume_def try_body_prometheus finally_clause_prometheus counted_def
      split: outcome.splits)

lemma dispatch_split:
  "dispatch M call_next request w =
     (case dispatch_enter M request (clock w) (reg w) of
        Inl e \<Rightarrow> (Raised e, w)
      | Inr (f, r1) \<Rightarrow>
          (let (out, w2) = call_next request (w\<lparr>reg := r1\<rparr>);
               (final, r4) = dispatch_resume M f out (clock w2) (reg w2)
           in (final, w2\<lparr>reg := r4\<rparr>)))"
  by (simp add: dispatch_def dispatch_enter_def dispatch_resume_def Let_def split: sum.splits prod.splits)

lemma dispatch_measured:
  assumes "url_path request \<noteq> ''/metrics''"
    and "call_next request (w\<lparr>reg := (reg w)\<lparr>INPROGRESS := INPROGRESS (reg w) + 1\<rparr>\<rparr>) = (out, w2)"
  shows "dispatch prometheus call_next request w =
     (out, w2\<lparr>reg :=
        \<lparr>REQUEST_COUNT = counted (request_method request) (url_path request) out (REQUEST_COUNT (reg w2)),
         REQUEST_LATENCY =
           labels_observe (request_method request, url_path request) (clock w2 - clock w)
             (REQUEST_LATENCY (reg w2)),
         INPROGRESS = INPROGRESS (reg w2) - 1\<rparr>\<rparr>)"
  using assms
  by (simp add: dispatch_split dispatch_enter_def inprogress_inc_prometheus
      dispatch_resume_prometheus)

lemma count_value_counted:
  "REQUEST_COUNT r' = counted method path out (REQUEST_COUNT r) \<Longrightarrow>
   count_value r' =
     (case out of
        Raised e \<Rightarrow> count_value r
      | Returned response \<Rightarrow>
          (count_value r)
            ((method, path, str (getattr_status_code response 500)) :=
               count_value r (method, path, str (getattr_status_code response 500)) + 1))"
  by (auto simp: count_value_def counted_def map_of_labels_inc fun_eq_iff
      split: option.splits outcome.splits)

lemma observations_observed:
  "REQUEST_LATENCY r' = labels_observe k d (REQUEST_LATENCY r) \<Longrightarrow>
   observations r' = (observations r)(k := observations r k @ [d])"
  by (auto simp: observations_def map_of_labels_observe fun_eq_iff split: option.splits)

section \<open>One request through \<open>dispatch\<close>\<close>

text \<open>
  Claim C6. The interceptor is transparent to its caller: for every request, what
  \<open>dispatch\<close> hands back is the outcome of the downstream call itself, the very response
  on a normal return and the very exception on a fault. The downstream call is made on
  the world as it is for the scrape path, and on the world with the gauge raised by one
  for every other path.
\<close>

theorem dispatch_transparent:
  "fst (dispatch prometheus call_next request w) =
   fst (call_next request
         (if url_path request = ''/metrics'' then w
          else w\<lparr>reg := (reg w)\<lparr>INPROGRESS := INPROGRESS (reg w) + 1\<rparr>\<rparr>))"
proof (cases "url_path request = ''/metrics''")
  case True
  then show ?thesis by (simp add: dispatch_bypass)
next
  case False
  obtain out w2 where
    "call_next request (w\<lparr>reg := (reg w)\<lparr>INPROGRESS := INPROGRESS (reg w) + 1\<rparr>\<rparr>) = (out, w2)"
    by (cases "call_next request (w\<lparr>reg := (reg w)\<lparr>INPROGRESS := INPROGRESS (reg w) + 1\<rparr>\<rparr>)")
  with False show ?thesis by (simp add: dispatch_measured)
qed

text \<open>
  Claim C5. For every measured request the histogram receives exactly one observation,
  in the series of the request's method and path: the clock reading at the moment the
  downstream call resolves minus the reading taken before the gauge increment. Every
  other series keeps its observations, and the downstream outcome \<open>out\<close> is arbitrary,
  a response or an exception.
\<close>

theorem latency_observed_once:
  assumes "url_path request \<noteq> ''/metrics''"
    and "call_next request (w\<lparr>reg := (reg w)\<lparr>INPROGRESS := INPROGRESS (reg w) + 1\<rparr>\<rparr>) = (out, w2)"
  shows "observations (reg (snd (dispatch prometheus call_next request w))) =
         (observations (reg w2))
           ((request_method request, url_path request) :=
              observations (reg w2) (request_method request, url_path request) @ [clock w2 - clock w])"
  using assms by (simp add: dispatch_measured observations_observed)

text \<open>
  A request to \<^verbatim>\<open>/work\<close> whose downstream call raises after half a second: one
  observation of half a second in its series, none elsewhere.
\<close>

theorem latency_observed_once_witness:
  "observations (reg (snd (dispatch prometheus raising_after_half get_work world0))) (''GET'', ''/work'') = [1/2] \<and>
   observations (reg (snd (dispatch prometheus raising_after_half get_work world0))) (''GET'', ''/db'') = []"
proof -
  have m: "url_path get_work \<noteq> ''/metrics''"
    by (simp add: get_work_def)
  have c: "raising_after_half get_work
             (world0\<lparr>reg := (reg world0)\<lparr>INPROGRESS := INPROGRESS (reg world0) + 1\<rparr>\<rparr>) =
           (Raised (Exception ''RuntimeError''), \<lparr>clock = 1/2, reg = registry0\<lparr>INPROGRESS := 1\<rparr>\<rparr>)"
    by (simp add: raising_after_half_def world0_def registry0_def)
  show ?thesis
    using latency_observed_once [where call_next = raising_after_half and w = world0, OF m c]
    by (simp add: get_work_def observations_def registry0_def world0_def)
qed

section \<open>Requests in flight: the gauge\<close>

lemma measured_append [simp]: "measured (fs @ gs) = measured fs + measured gs"
  by (simp add: measured_def)

lemma measured_remove:
  assumes "i < length fs"
  shows "measured fs = measured (take i fs @ drop (Suc i) fs) + (if is_measured (fs ! i) then 1 else 0)"
proof -
  have "fs = take i fs @ fs ! i # drop (Suc i) fs"
    using assms by (rule id_take_nth_drop)
  then have "measured fs = measured (take i fs @ fs ! i # drop (Suc i) fs)"
    by simp
  then show ?thesis
    by (simp add: measured_def)
qed

lemma dispatch_enter_prometheus:
  "dispatch_enter prometheus request now r =
     (if url_path request = ''/metrics'' then Inr (Bypass, r)
      else Inr (Measured (request_method request) (url_path request) now,
                r\<lparr>INPROGRESS := INPROGRESS r + 1\<rparr>))"
  by (simp add: dispatch_enter_def inprogress_inc_prometheus)

lemma dispatch_resume_Bypass: "dispatch_resume M Bypass out now r = (out, r)"
  by (simp add: dispatch_resume_def)

lemma step_gauge:
  "INPROGRESS (series (step prometheus s ev)) - int (measured (in_flight (step prometheus s ev))) =
   INPROGRESS (series s) - int (measured (in_flight s))"
proof (cases ev)
  case (Arrive request now)
  then show ?thesis
    by (simp add: dispatch_enter_prometheus measured_def)
next
  case (Resolve i out now)
  show ?thesis
  proof (cases "i < length (in_flight s)")
    case False
    with Resolve show ?thesis by simp
  next
    case True
    note rm = measured_remove [OF True]
    show ?thesis
    proof (cases "in_flight s ! i")
      case Bypass
      with Resolve True rm show ?thesis
        by (simp add: dispatch_resume_Bypass)
    next
      case (Measured mth pth st)
      with Resolve True rm show ?thesis
        by (simp add: dispatch_resume_prometheus)
    qed
  qed
qed

lemma run_gauge:
  "INPROGRESS (series (run prometheus s evs)) - int (measured (in_flight (run prometheus s evs))) =
   INPROGRESS (series s) - int (measured (in_flight s))"
  unfolding run_def
  by (induction evs arbitrary: s) (simp_all add: step_gauge)

text \<open>
  Claim C3. A measured request raises the gauge by one on entry and lowers it by one
  when its downstream call resolves, with a response or with an exception alike. Hence
  after any sequence of arrivals and resolutions the gauge stands above its starting
  value by the number of measured requests then in flight less the number in flight at
  the start: once every request has completed it is back at its baseline.
\<close>

theorem inprogress_balanced:
  "(url_path request \<noteq> ''/metrics'' \<longrightarrow>
      dispatch_enter prometheus request now r =
        Inr (Measured (request_method request) (url_path request) now,
             r\<lparr>INPROGRESS := INPROGRESS r + 1\<rparr>)) \<and>
   INPROGRESS (snd (dispatch_resume prometheus (Measured mth pth start) out now r)) = INPROGRESS r - 1 \<and>
   (url_path request \<noteq> ''/metrics'' \<and>
    call_next request (w\<lparr>reg := (reg w)\<lparr>INPROGRESS := INPROGRESS (reg w) + 1\<rparr>\<rparr>) = (out, w2) \<longrightarrow>
      INPROGRESS (reg (snd (dispatch prometheus call_next request w))) = INPROGRESS (reg w2) - 1) \<and>
   INPROGRESS (series (run prometheus s evs)) =
     INPROGRESS (series s) - int (measured (in_flight s)) + int (measured (in_flight (run prometheus s evs)))"
  using run_gauge [of s evs]
  by (simp add: dispatch_enter_prometheus dispatch_resume_prometheus dispatch_measured)

text \<open>
  Two measured requests and a scrape in flight together, one of them failing: the gauge
  is back at zero once all three have completed.
\<close>

theorem inprogress_balanced_witness:
  "url_path get_work \<noteq> ''/metrics'' \<and>
   INPROGRESS (reg (snd (dispatch prometheus raising_after_half get_work world0))) = 0 \<and>
   in_flight (run prometheus server0
     [Arrive get_work 0, Arrive get_healthz (1/10), Arrive get_metrics (1/5),
      Resolve 0 (Raised (Exception ''RuntimeError'')) (1/2),
      Resolve 1 (Returned \<lparr>status_code = Some 200, content = ''text''\<rparr>) (3/5),
      Resolve 0 (Returned \<lparr>status_code = Some 200, content = ''ok''\<rparr>) (7/10)]) = [] \<and>
   INPROGRESS (series (run prometheus server0
     [Arrive get_work 0, Arrive get_healthz (1/10), Arrive get_metrics (1/5),
      Resolve 0 (Raised (Exception ''RuntimeError'')) (1/2),
      Resolve 1 (Returned \<lparr>status_code = Some 200, content = ''text''\<rparr>) (3/5),
      Resolve 0 (Returned \<lparr>status_code = Some 200, content = ''ok''\<rparr>) (7/10)])) = 0"
proof -
  let ?evs = "[Arrive get_work 0, Arrive get_healthz (1/10), Arrive get_metrics (1/5),
      Resolve 0 (Raised (Exception ''RuntimeError'')) (1/2),
      Resolve 1 (Returned \<lparr>status_code = Some 200, content = ''text''\<rparr>) (3/5),
      Resolve 0 (Returned \<lparr>status_code = Some 200, content = ''ok''\<rparr>) (7/10)]"
  have m: "url_path get_work \<noteq> ''/metrics''"
    by (simp add: get_work_def)
  have c: "raising_after_half get_work
             (world0\<lparr>reg := (reg world0)\<lparr>INPROGRESS := INPROGRESS (reg world0) + 1\<rparr>\<rparr>) =
           (Raised (Exception ''RuntimeError''), \<lparr>clock = 1/2, reg = registry0\<lparr>INPROGRESS := 1\<rparr>\<rparr>)"
    by (simp add: raising_after_half_def world0_def registry0_def)
  have fl: "in_flight (run prometheus server0 ?evs) = []"
    by (simp add: run_def server0_def dispatch_enter_def dispatch_resume_def prometheus_def
        get_work_def get_healthz_def get_metrics_def try_body_def finally_clause_def)
  show ?thesis
    using inprogress_balanced [where request = get_work and call_next = raising_after_half
        and w = world0 and out = "Raised (Exception ''RuntimeError'')"
        and ?w2.0 = "\<lparr>clock = 1/2, reg = registry0\<lparr>INPROGRESS := 1\<rparr>\<rparr>"
        and s = server0 and evs = ?evs] m c fl
    by (simp add: server0_def registry0_def measured_def)
qed

section \<open>Requests in flight: counter against histogram\<close>

lemma sum_labels_inc:
  "sum_list (map snd (filter (\<lambda>(k', v). Q k') (labels_inc k xs))) =
   sum_list (map snd (filter (\<lambda>(k', v). Q k') xs)) + (if Q k then 1 else 0)"
  by (induction k xs rule: labels_inc.induct) auto

lemma count_total_counted:
  assumes "REQUEST_COUNT r' = counted method path out (REQUEST_COUNT r)"
  shows "count_total r' m p =
         count_total r m p +
           (case out of Raised e \<Rightarrow> 0 | Returned response \<Rightarrow> if m = method \<and> p = path then 1 else 0)"
proof -
  have "(\<lambda>((m', p', s), v). m' = m \<and> p' = p) =
        (\<lambda>(k', v :: nat). (case k' of (m', p', s :: string) \<Rightarrow> m' = m \<and> p' = p))"
    by (simp add: fun_eq_iff)
  then show ?thesis
    using assms
    by (auto simp: count_total_def counted_def sum_labels_inc split: outcome.splits)
qed

lemma latency_count_observed:
  assumes "REQUEST_LATENCY r' = labels_observe (method, path) d (REQUEST_LATENCY r)"
  shows "latency_count r' m p = latency_count r m p + (if m = method \<and> p = path then 1 else 0)"
  using observations_observed [OF assms]
  by (simp add: latency_count_def)

lemma step_count_le:
  assumes "count_total (series s) m p \<le> latency_count (series s) m p"
  shows "count_total (series (step prometheus s ev)) m p \<le> latency_count (series (step prometheus s ev)) m p"
proof (cases ev)
  case (Arrive request now)
  with assms show ?thesis
    by (simp add: dispatch_enter_prometheus count_total_def latency_count_def observations_def)
next
  case (Resolve i out now)
  show ?thesis
  proof (cases "i < length (in_flight s)")
    case False
    with Resolve assms show ?thesis by simp
  next
    case True
    show ?thesis
    proof (cases "in_flight s ! i")
      case Bypass
      with Resolve True assms show ?thesis
        by (simp add: dispatch_resume_Bypass)
    next
      case (Measured mth pth st)
      let ?r' = "snd (dispatch_resume prometheus (Measured mth pth st) out now (series s))"
      have c: "REQUEST_COUNT ?r' = counted mth pth out (REQUEST_COUNT (series s))"
        and l: "REQUEST_LATENCY ?r' = labels_observe (mth, pth) (now - st) (REQUEST_LATENCY (series s))"
        by (simp_all add: dispatch_resume_prometheus)
      have "count_total ?r' m p \<le> latency_count ?r' m p"
        using assms
        by (auto simp: count_total_counted [OF c] latency_count_observed [OF l] split: outcome.splits)
      with Resolve True Measured show ?thesis
        by simp
    qed
  qed
qed

lemma run_count_le:
  "count_total (series s) m p \<le> latency_count (series s) m p \<Longrightarrow>
   count_total (series (run prometheus s evs)) m p \<le> latency_count (series (run prometheus s evs)) m p"
  unfolding run_def
  by (induction evs arbitrary: s) (simp_all add: step_count_le)

text \<open>
  Claim C9. After any sequence of arrivals and resolutions served from the start of the
  process, for every method and path the total of \<open>http_requests_total\<close> over all status
  codes is at most the number of observations of \<open>http_request_duration_seconds\<close>: every
  resolution of a measured request observes its latency, and only a normal return
  increments the counter.
\<close>

theorem count_le_observations:
  "count_total (series (run prometheus server0 evs)) method path
     \<le> latency_count (series (run prometheus server0 evs)) method path"
  by (rule run_count_le)
     (simp add: server0_def registry0_def count_total_def latency_count_def observations_def)

text \<open>
  The inequality is strict after a fault: of two requests to \<^verbatim>\<open>/work\<close> in flight
  together, one fails and one is answered; both are observed, one is counted.
\<close>

lemma failed_request_observed_not_counted:
  "count_total (series (run prometheus server0
     [Arrive get_work 0, Arrive get_work (1/10),
      Resolve 0 (Raised (Exception ''RuntimeError'')) (1/2),
      Resolve 0 (Returned \<lparr>status_code = Some 200, content = ''done''\<rparr>) (3/5)])) ''GET'' ''/work'' = 1 \<and>
   latency_count (series (run prometheus server0
     [Arrive get_work 0, Arrive get_work (1/10),
      Resolve 0 (Raised (Exception ''RuntimeError'')) (1/2),
      Resolve 0 (Returned \<lparr>status_code = Some 200, content = ''done''\<rparr>) (3/5)])) ''GET'' ''/work'' = 2 \<and>
   observations (series (run prometheus server0
     [Arrive get_work 0, Arrive get_work (1/10),
      Resolve 0 (Raised (Exception ''RuntimeError'')) (1/2),
      Resolve 0 (Returned \<lparr>status_code = Some 200, content = ''done''\<rparr>) (3/5)])) (''GET'', ''/work'') = [1/2, 1/2]"
  by (simp add: run_def server0_def registry0_def dispatch_enter_def dispatch_resume_def
      prometheus_def get_work_def try_body_def finally_clause_def getattr_status_code_def
      str_200 count_total_def latency_count_def observations_def)

section \<open>The scrape path\<close>

lemma keys_labels_inc: "fst ` set (labels_inc k xs) = insert k (fst ` set xs)"
  by (induction k xs rule: labels_inc.induct) auto

lemma keys_labels_observe: "fst ` set (labels_observe k d xs) = insert k (fst ` set xs)"
  by (induction k d xs rule: labels_observe.induct) auto

lemma count_paths_keys: "count_paths r = (\<lambda>k. fst (snd k)) ` fst ` set (REQUEST_COUNT r)"
  by (simp add: count_paths_def image_image case_prod_unfold)

lemma latency_paths_keys: "latency_paths r = snd ` fst ` set (REQUEST_LATENCY r)"
  by (simp add: latency_paths_def image_image case_prod_unfold)

lemma count_paths_counted:
  "REQUEST_COUNT r' = counted method path out (REQUEST_COUNT r) \<Longrightarrow>
   count_paths r' \<subseteq> insert path (count_paths r)"
  by (auto simp: count_paths_keys counted_def keys_labels_inc split: outcome.splits)

lemma latency_paths_observed:
  "REQUEST_LATENCY r' = labels_observe (method, path) d (REQUEST_LATENCY r) \<Longrightarrow>
   latency_paths r' = insert path (latency_paths r)"
  by (simp add: latency_paths_keys keys_labels_observe)

lemma step_scrape_free:
  assumes "scrape_free s"
  shows "scrape_free (step prometheus s ev)"
proof (cases ev)
  case (Arrive request now)
  with assms show ?thesis
    by (auto simp: scrape_free_def dispatch_enter_prometheus count_paths_def latency_paths_def)
next
  case (Resolve i out now)
  show ?thesis
  proof (cases "i < length (in_flight s)")
    case False
    with Resolve assms show ?thesis by simp
  next
    case True
    have sub: "set (take i (in_flight s) @ drop (Suc i) (in_flight s)) \<subseteq> set (in_flight s)"
      using set_take_subset [of i "in_flight s"] set_drop_subset [of "Suc i" "in_flight s"]
      by auto
    show ?thesis
    proof (cases "in_flight s ! i")
      case Bypass
      with Resolve True assms sub show ?thesis
        by (auto simp: scrape_free_def dispatch_resume_Bypass)
    next
      case (Measured mth pth st)
      let ?r' = "snd (dispatch_resume prometheus (Measured mth pth st) out now (series s))"
      have c: "REQUEST_COUNT ?r' = counted mth pth out (REQUEST_COUNT (series s))"
        and l: "REQUEST_LATENCY ?r' = labels_observe (mth, pth) (now - st) (REQUEST_LATENCY (series s))"
        by (simp_all add: dispatch_resume_prometheus)
      have "Measured mth pth st \<in> set (in_flight s)"
        using True Measured nth_mem [of i "in_flight s"] by simp
      with assms have p: "pth \<noteq> ''/metrics''"
        by (auto simp: scrape_free_def)
      have "''/metrics'' \<notin> count_paths ?r'" "''/metrics'' \<notin> latency_paths ?r'"
        using assms p count_paths_counted [OF c] latency_paths_observed [OF l]
        by (auto simp: scrape_free_def)
      with Resolve True Measured assms sub show ?thesis
        by (auto simp: scrape_free_def)
    qed
  qed
qed

lemma run_scrape_free: "scrape_free s \<Longrightarrow> scrape_free (run prometheus s evs)"
  unfolding run_def
  by (induction evs arbitrary: s) (simp_all add: step_scrape_free)

lemma scrape_free_server0: "scrape_free server0"
  by (simp add: scrape_free_def server0_def registry0_def count_paths_def latency_paths_def)

text \<open>
  Claim C4. For a request whose path is \<^verbatim>\<open>/metrics\<close>, \<open>dispatch\<close> is the downstream call
  and nothing else, whatever the metric calls are: no counter increment, no observation,
  no gauge change. Consequently, after any sequence of arrivals and resolutions served
  from the start of the process, the scrape path is a label value of no series of
  \<open>http_requests_total\<close> and of no series of \<open>http_request_duration_seconds\<close>.
\<close>

theorem scrape_path_unmeasured:
  "(url_path request = ''/metrics'' \<longrightarrow> dispatch M call_next request w = call_next request w) \<and>
   ''/metrics'' \<notin> count_paths (series (run prometheus server0 evs)) \<and>
   ''/metrics'' \<notin> latency_paths (series (run prometheus server0 evs))"
  using run_scrape_free [OF scrape_free_server0, of evs]
  by (simp add: scrape_free_def dispatch_bypass)

text \<open>A scrape request, also with a counter call that would raise.\<close>

theorem scrape_path_unmeasured_witness:
  "url_path get_metrics = ''/metrics'' \<and>
   dispatch broken_counter ok_after_half get_metrics world0 = ok_after_half get_metrics world0 \<and>
   reg (snd (dispatch prometheus ok_after_half get_metrics world0)) = registry0"
proof -
  have m: "url_path get_metrics = ''/metrics''"
    by (simp add: get_metrics_def)
  from scrape_path_unmeasured [where request = get_metrics]
  have "\<And>M call_next w. dispatch M call_next get_metrics w = call_next get_metrics w"
    using m by simp
  then show ?thesis
    using m by (simp add: ok_after_half_def world0_def)
qed

section \<open>The counter and the downstream outcome\<close>

text \<open>
  Claim C1, as amended. For every measured request whose downstream call returns a
  response, \<open>http_requests_total\<close> is incremented exactly once, in the series of the
  request's method and path and of the response's status code (500 when the response
  has no such attribute), and no other series changes. When the downstream call raises,
  the counter is left as it is: no status is attributed to a fault.
\<close>

theorem count_on_return_only:
  assumes "url_path request \<noteq> ''/metrics''"
    and "call_next request (w\<lparr>reg := (reg w)\<lparr>INPROGRESS := INPROGRESS (reg w) + 1\<rparr>\<rparr>) = (out, w2)"
  shows "case out of
           Returned response \<Rightarrow>
             count_value (reg (snd (dispatch prometheus call_next request w))) =
               (count_value (reg w2))
                 ((request_method request, url_path request, str (getattr_status_code response 500)) :=
                    count_value (reg w2)
                      (request_method request, url_path request, str (getattr_status_code response 500)) + 1)
         | Raised e \<Rightarrow>
             REQUEST_COUNT (reg (snd (dispatch prometheus call_next request w))) = REQUEST_COUNT (reg w2)"
proof (cases out)
  case (Returned response)
  then show ?thesis
    using assms count_value_counted [of _ "request_method request" "url_path request" out "reg w2"]
    by (simp add: dispatch_measured)
next
  case (Raised e)
  then show ?thesis
    using assms by (simp add: dispatch_measured counted_def)
qed

text \<open>A request to \<^verbatim>\<open>/work\<close> answered with status 200 is counted under 200, once.\<close>

theorem count_on_return_only_witness:
  "count_value (reg (snd (dispatch prometheus ok_after_half get_work world0))) (''GET'', ''/work'', ''200'') = 1 \<and>
   count_value (reg (snd (dispatch prometheus ok_after_half get_work world0))) (''GET'', ''/work'', ''500'') = 0"
proof -
  have m: "url_path get_work \<noteq> ''/metrics''"
    by (simp add: get_work_def)
  have c: "ok_after_half get_work (world0\<lparr>reg := (reg world0)\<lparr>INPROGRESS := INPROGRESS (reg world0) + 1\<rparr>\<rparr>) =
           (Returned \<lparr>status_code = Some 200, content = ''done''\<rparr>,
            \<lparr>clock = 1/2, reg = registry0\<lparr>INPROGRESS := 1\<rparr>\<rparr>)"
    by (simp add: ok_after_half_def world0_def registry0_def)
  show ?thesis
    using count_on_return_only [where call_next = ok_after_half and w = world0, OF m c]
    by (simp add: getattr_status_code_def str_200 get_work_def count_value_def registry0_def)
qed

text \<open>
  Claim C1 as stated fails: the downstream call of a request to \<^verbatim>\<open>/work\<close> raises, and
  afterwards the counter has no series at all, in particular none of status 500.
\<close>

theorem raised_request_not_counted:
  "fst (dispatch prometheus raising_after_half get_work world0) = Raised (Exception ''RuntimeError'') \<and>
   REQUEST_COUNT (reg (snd (dispatch prometheus raising_after_half get_work world0))) = [] \<and>
   count_value (reg (snd (dispatch prometheus raising_after_half get_work world0))) (''GET'', ''/work'', ''500'') = 0"
  by (simp add: dispatch_def prometheus_def raising_after_half_def get_work_def world0_def
      registry0_def try_body_def finally_clause_def count_value_def)

section \<open>Which paths are measured\<close>

text \<open>
  Claim C10, as amended. The bypass applies to the path \<^verbatim>\<open>/metrics\<close> only. A request
  to any other path, \<^verbatim>\<open>/healthz\<close> included, raises the gauge on entry and adds one
  observation to the histogram series of its method and path; it adds one to the counter
  of its method and path when its downstream call returns a response, and nothing when
  the call raises.
\<close>

theorem other_paths_measured:
  assumes "url_path request \<noteq> ''/metrics''"
    and "call_next request (w\<lparr>reg := (reg w)\<lparr>INPROGRESS := INPROGRESS (reg w) + 1\<rparr>\<rparr>) = (out, w2)"
  shows "dispatch_enter prometheus request (clock w) (reg w) =
           Inr (Measured (request_method request) (url_path request) (clock w),
                (reg w)\<lparr>INPROGRESS := INPROGRESS (reg w) + 1\<rparr>) \<and>
         latency_count (reg (snd (dispatch prometheus call_next request w)))
             (request_method request) (url_path request) =
           latency_count (reg w2) (request_method request) (url_path request) + 1 \<and>
         count_total (reg (snd (dispatch prometheus call_next request w)))
             (request_method request) (url_path request) =
           count_total (reg w2) (request_method request) (url_path request) +
             (case out of Returned response \<Rightarrow> 1 | Raised e \<Rightarrow> 0)"
proof -
  let ?r' = "reg (snd (dispatch prometheus call_next request w))"
  have c: "REQUEST_COUNT ?r' =
             counted (request_method request) (url_path request) out (REQUEST_COUNT (reg w2))"
    and l: "REQUEST_LATENCY ?r' =
             labels_observe (request_method request, url_path request) (clock w2 - clock w)
               (REQUEST_LATENCY (reg w2))"
    using assms by (simp_all add: dispatch_measured)
  show ?thesis
    using assms(1)
    by (simp add: dispatch_enter_prometheus count_total_counted [OF c]
        latency_count_observed [OF l] split: outcome.splits)
qed

text \<open>A health check is measured: counted under status 200, observed at a quarter second.\<close>

theorem other_paths_measured_witness:
  "url_path get_healthz \<noteq> ''/metrics'' \<and>
   REQUEST_COUNT (reg (snd (dispatch prometheus healthz get_healthz world0))) =
     [((''GET'', ''/healthz'', ''200''), 1)] \<and>
   REQUEST_LATENCY (reg (snd (dispatch prometheus healthz get_healthz world0))) =
     [((''GET'', ''/healthz''), [1/4])] \<and>
   latency_count (reg (snd (dispatch prometheus healthz get_healthz world0))) ''GET'' ''/healthz'' = 1 \<and>
   count_total (reg (snd (dispatch prometheus healthz get_healthz world0))) ''GET'' ''/healthz'' = 1"
proof -
  have m: "url_path get_healthz \<noteq> ''/metrics''"
    by (simp add: get_healthz_def)
  have c: "healthz get_healthz
             (world0\<lparr>reg := (reg world0)\<lparr>INPROGRESS := INPROGRESS (reg world0) + 1\<rparr>\<rparr>) =
           (Returned \<lparr>status_code = Some 200, content = ''{\"status\":\"ok\"}''\<rparr>,
            \<lparr>clock = 1/4, reg = registry0\<lparr>INPROGRESS := 1\<rparr>\<rparr>)"
    by (simp add: healthz_def world0_def registry0_def)
  have e: "REQUEST_COUNT (reg (snd (dispatch prometheus healthz get_healthz world0))) =
             [((''GET'', ''/healthz'', ''200''), 1)]"
          "REQUEST_LATENCY (reg (snd (dispatch prometheus healthz get_healthz world0))) =
             [((''GET'', ''/healthz''), [1/4])]"
    by (simp_all add: dispatch_def prometheus_def healthz_def get_healthz_def world0_def
        registry0_def try_body_def finally_clause_def getattr_status_code_def str_200 Let_def)
  show ?thesis
    using other_paths_measured [where call_next = healthz and w = world0, OF m c] m e
    by (simp add: get_healthz_def count_total_def latency_count_def observations_def registry0_def)
qed

text \<open>
  Claim C10 as stated fails: a request to \<^verbatim>\<open>/db\<close> whose downstream call raises is
  observed in the histogram and not counted in \<open>http_requests_total\<close>.
\<close>

theorem raised_db_request_not_counted:
  "url_path get_db \<noteq> ''/metrics'' \<and>
   count_total (reg (snd (dispatch prometheus raising_after_half get_db world0))) ''GET'' ''/db'' = 0 \<and>
   latency_count (reg (snd (dispatch prometheus raising_after_half get_db world0))) ''GET'' ''/db'' = 1"
  by (simp add: dispatch_def prometheus_def raising_after_half_def get_db_def world0_def
      registry0_def try_body_def finally_clause_def count_total_def latency_count_def
      observations_def)

section \<open>Metric calls that raise\<close>

text \<open>
  Claim C2, as amended. The interceptor does not catch a failure of its metric-recording
  calls; every such failure reaches the caller. For a measured request:
  \<^item> when the gauge increment raises, its exception is raised to the caller and the
    downstream call is never made;
  \<^item> when the downstream call returned a response, the caller receives a response only
    if none of the counter call, the histogram call and the gauge decrement raises;
    otherwise the caller receives an exception in place of the response: the
    histogram's when the histogram call raises (the gauge is then not lowered), else the
    gauge decrement's when that raises, else the counter's;
  \<^item> when the downstream call raised, an exception of the histogram call or of the gauge
    decrement replaces the downstream exception.
\<close>

theorem metric_failure_propagates:
  assumes "url_path request \<noteq> ''/metrics''"
  shows
    "(inprogress_inc M (reg w) = Inl e \<longrightarrow> dispatch M call_next request w = (Raised e, w)) \<and>
     (inprogress_inc M (reg w) = Inr r1 \<and>
      call_next request (w\<lparr>reg := r1\<rparr>) = (Returned response, w2) \<longrightarrow>
        dispatch M call_next request w =
          (let c = request_count_inc M
                     (request_method request, url_path request,
                      str (getattr_status_code response 500)) (reg w2);
               r3 = (case c of Inl x \<Rightarrow> reg w2 | Inr r \<Rightarrow> r)
           in case request_latency_observe M (request_method request, url_path request)
                     (clock w2 - clock w) r3 of
                Inl x \<Rightarrow> (Raised x, w2\<lparr>reg := r3\<rparr>)
              | Inr r4 \<Rightarrow>
                  (case inprogress_dec M r4 of
                     Inl x \<Rightarrow> (Raised x, w2\<lparr>reg := r4\<rparr>)
                   | Inr r5 \<Rightarrow>
                       (case c of Inl x \<Rightarrow> Raised x | Inr r \<Rightarrow> Returned response,
                        w2\<lparr>reg := r5\<rparr>))) \<and>
        ((\<exists>resp. fst (dispatch M call_next request w) = Returned resp) \<longleftrightarrow>
           (\<exists>r3 r4 r5.
              request_count_inc M
                (request_method request, url_path request,
                 str (getattr_status_code response 500)) (reg w2) = Inr r3 \<and>
              request_latency_observe M (request_method request, url_path request)
                (clock w2 - clock w) r3 = Inr r4 \<and>
              inprogress_dec M r4 = Inr r5))) \<and>
     (inprogress_inc M (reg w) = Inr r1 \<and>
      call_next request (w\<lparr>reg := r1\<rparr>) = (Raised e0, w2) \<longrightarrow>
        dispatch M call_next request w =
          (case request_latency_observe M (request_method request, url_path request)
                  (clock w2 - clock w) (reg w2) of
             Inl x \<Rightarrow> (Raised x, w2\<lparr>reg := reg w2\<rparr>)
           | Inr r4 \<Rightarrow>
               (case inprogress_dec M r4 of
                  Inl x \<Rightarrow> (Raised x, w2\<lparr>reg := r4\<rparr>)
                | Inr r5 \<Rightarrow> (Raised e0, w2\<lparr>reg := r5\<rparr>))))"
  using assms
  by (auto simp: dispatch_def try_body_def finally_clause_def Let_def split: sum.splits)

text \<open>
  A request to \<^verbatim>\<open>/work\<close> answered with status 200, under each failing call in turn,
  under a failing counter and histogram together, and under no failure; and a failing
  request under a failing histogram.
\<close>

theorem metric_failure_propagates_witness:
  "dispatch broken_gauge_inc ok_after_half get_work world0 = (Raised (Exception ''gauge inc''), world0) \<and>
   fst (dispatch broken_counter ok_after_half get_work world0) = Raised (Exception ''ValueError'') \<and>
   fst (dispatch broken_histogram ok_after_half get_work world0) = Raised (Exception ''ValueError'') \<and>
   fst (dispatch broken_gauge_dec ok_after_half get_work world0) = Raised (Exception ''gauge dec'') \<and>
   fst (dispatch broken_counter_and_histogram ok_after_half get_work world0) =
     Raised (Exception ''histogram'') \<and>
   INPROGRESS (reg (snd (dispatch broken_counter_and_histogram ok_after_half get_work world0))) = 1 \<and>
   fst (dispatch prometheus ok_after_half get_work world0) =
     Returned \<lparr>status_code = Some 200, content = ''done''\<rparr> \<and>
   fst (dispatch broken_histogram raising_after_half get_work world0) = Raised (Exception ''ValueError'')"
proof -
  let ?resp = "\<lparr>status_code = Some 200, content = ''done''\<rparr>"
  let ?r1 = "registry0\<lparr>INPROGRESS := 1\<rparr>"
  let ?w2 = "\<lparr>clock = 1/2, reg = ?r1\<rparr>"
  have m: "url_path get_work \<noteq> ''/metrics''"
    by (simp add: get_work_def)
  have c: "ok_after_half get_work (world0\<lparr>reg := ?r1\<rparr>) = (Returned ?resp, ?w2)"
    by (simp add: ok_after_half_def world0_def)
  have f: "raising_after_half get_work (world0\<lparr>reg := ?r1\<rparr>) =
             (Raised (Exception ''RuntimeError''), ?w2)"
    by (simp add: raising_after_half_def world0_def)
  have i: "inprogress_inc broken_counter (reg world0) = Inr ?r1"
          "inprogress_inc broken_histogram (reg world0) = Inr ?r1"
          "inprogress_inc broken_gauge_dec (reg world0) = Inr ?r1"
          "inprogress_inc broken_counter_and_histogram (reg world0) = Inr ?r1"
          "inprogress_inc prometheus (reg world0) = Inr ?r1"
    by (simp_all add: broken_counter_def broken_histogram_def broken_gauge_dec_def
        broken_counter_and_histogram_def prometheus_def world0_def registry0_def)
  have g: "inprogress_inc broken_gauge_inc (reg world0) = Inl (Exception ''gauge inc'')"
    by (simp add: broken_gauge_inc_def)
  have 1: "dispatch broken_gauge_inc ok_after_half get_work world0 =
             (Raised (Exception ''gauge inc''), world0)"
    using metric_failure_propagates [where M = broken_gauge_inc and call_next = ok_after_half
        and w = world0 and e = "Exception ''gauge inc''", OF m] g
    by blast
  have 2: "fst (dispatch broken_counter ok_after_half get_work world0) = Raised (Exception ''ValueError'')"
    using metric_failure_propagates [where M = broken_counter and call_next = ok_after_half
        and w = world0 and ?r1.0 = ?r1 and response = ?resp and ?w2.0 = ?w2, OF m] i(1) c
    by (simp add: broken_counter_def prometheus_def)
  have 3: "fst (dispatch broken_histogram ok_after_half get_work world0) = Raised (Exception ''ValueError'')"
    using metric_failure_propagates [where M = broken_histogram and call_next = ok_after_half
        and w = world0 and ?r1.0 = ?r1 and response = ?resp and ?w2.0 = ?w2, OF m] i(2) c
    by (simp add: broken_histogram_def prometheus_def)
  have 4: "fst (dispatch broken_gauge_dec ok_after_half get_work world0) = Raised (Exception ''gauge dec'')"
    using metric_failure_propagates [where M = broken_gauge_dec and call_next = ok_after_half
        and w = world0 and ?r1.0 = ?r1 and response = ?resp and ?w2.0 = ?w2, OF m] i(3) c
    by (simp add: broken_gauge_dec_def prometheus_def)
  have 5: "fst (dispatch broken_counter_and_histogram ok_after_half get_work world0) =
             Raised (Exception ''histogram'')"
          "INPROGRESS (reg (snd (dispatch broken_counter_and_histogram ok_after_half get_work world0))) = 1"
    using metric_failure_propagates [where M = broken_counter_and_histogram
        and call_next = ok_after_half and w = world0 and ?r1.0 = ?r1 and response = ?resp
        and ?w2.0 = ?w2, OF m] i(4) c
    by (simp_all add: broken_counter_and_histogram_def prometheus_def registry0_def)
  have 6: "fst (dispatch prometheus ok_after_half get_work world0) = Returned ?resp"
    using metric_failure_propagates [where M = prometheus and call_next = ok_after_half
        and w = world0 and ?r1.0 = ?r1 and response = ?resp and ?w2.0 = ?w2, OF m] i(5) c
    by (simp add: prometheus_def)
  have 7: "fst (dispatch broken_histogram raising_after_half get_work world0) =
             Raised (Exception ''ValueError'')"
    using metric_failure_propagates [where M = broken_histogram and call_next = raising_after_half
        and w = world0 and ?r1.0 = ?r1 and ?e0.0 = "Exception ''RuntimeError''" and ?w2.0 = ?w2,
        OF m] i(2) f
    by (simp add: broken_histogram_def prometheus_def)
  from 1 2 3 4 5 6 7 show ?thesis
    by simp
qed

text \<open>
  Claim C2 as stated fails: the downstream call returns a response of status 200, the
  counter call raises, and the caller receives that exception instead of the response.
\<close>

theorem metric_failure_reaches_caller:
  "fst (ok_after_half get_work (world0\<lparr>reg := (reg world0)\<lparr>INPROGRESS := 1\<rparr>\<rparr>)) =
     Returned \<lparr>status_code = Some 200, content = ''done''\<rparr> \<and>
   fst (dispatch broken_counter ok_after_half get_work world0) = Raised (Exception ''ValueError'')"
  by (simp add: dispatch_def broken_counter_def prometheus_def ok_after_half_def get_work_def
      world0_def registry0_def try_body_def finally_clause_def Let_def)

section \<open>Trace identifiers in log records\<close>

lemma below_16:
  assumes "(d::nat) < 16"
  shows "d = 0 \<or> d = 1 \<or> d = 2 \<or> d = 3 \<or> d = 4 \<or> d = 5 \<or> d = 6 \<or> d = 7 \<or>
         d = 8 \<or> d = 9 \<or> d = 10 \<or> d = 11 \<or> d = 12 \<or> d = 13 \<or> d = 14 \<or> d = 15"
  using assms by arith

lemma hex_digit_value_nth:
  assumes "d < 16"
  shows "hex_digit_value (''0123456789abcdef'' ! d) = d"
  using below_16 [OF assms]
  by (elim disjE) (simp_all add: hex_digit_value_def)

lemma hex_digit_in: "d < 16 \<Longrightarrow> ''0123456789abcdef'' ! d \<in> set ''0123456789abcdef''"
  by (rule nth_mem) simp

lemma hex_value_snoc: "hex_value (s @ [c]) = 16 * hex_value s + hex_digit_value c"
  by (simp add: hex_value_def)

lemma hex_value_hex_digits: "hex_value (hex_digits n) = n"
proof (induction n rule: hex_digits.induct)
  case (1 n)
  show ?case
  proof (cases "n < 16")
    case True
    then show ?thesis
      by (simp add: hex_digits.simps [of n] hex_value_def hex_digit_value_nth)
  next
    case False
    with 1 show ?thesis
      by (simp add: hex_digits.simps [of n] hex_value_snoc hex_digit_value_nth)
  qed
qed

lemma hex_value_zeros: "hex_value (replicate k CHR ''0'' @ s) = hex_value s"
proof -
  have z: "foldl (\<lambda>a c. 16 * a + hex_digit_value c) 0 (replicate k CHR ''0'') = 0"
    by (induction k) (simp_all add: hex_digit_value_def)
  show ?thesis
    by (simp add: hex_value_def z)
qed

lemma set_hex_digits: "set (hex_digits n) \<subseteq> set ''0123456789abcdef''"
proof (induction n rule: hex_digits.induct)
  case (1 n)
  show ?case
  proof (cases "n < 16")
    case True
    then show ?thesis
      using hex_digit_in [of n] by (simp add: hex_digits.simps [of n])
  next
    case False
    have "n mod 16 < 16" by simp
    with 1 False show ?thesis
      using hex_digit_in [of "n mod 16"] by (simp add: hex_digits.simps [of n])
  qed
qed

lemma length_hex_digits: "0 < k \<Longrightarrow> n < 16 ^ k \<Longrightarrow> length (hex_digits n) \<le> k"
proof (induction n arbitrary: k rule: hex_digits.induct)
  case (1 n)
  show ?case
  proof (cases "n < 16")
    case True
    with 1 show ?thesis
      by (simp add: hex_digits.simps [of n])
  next
    case False
    obtain j where k: "k = Suc j"
      using 1(2) by (cases k) auto
    have "j \<noteq> 0"
      using False 1(3) k by (cases j) auto
    moreover have "n div 16 < 16 ^ j"
      using 1(3) k by (simp add: less_mult_imp_div_less)
    ultimately have "length (hex_digits (n div 16)) \<le> j"
      using 1(1) [OF False, of j] by simp
    with False k show ?thesis
      by (simp add: hex_digits.simps [of n])
  qed
qed

lemma format_0x_nonneg:
  assumes "0 \<le> n" and "n < 16 ^ width" and "0 < width"
  shows "length (format_0x width n) = width"
    and "set (format_0x width n) \<subseteq> set ''0123456789abcdef''"
    and "int (hex_value (format_0x width n)) = n"
proof -
  have "nat n < 16 ^ width"
    using assms(1,2) by (simp add: nat_less_iff)
  then have "length (hex_digits (nat n)) \<le> width"
    using assms(3) by (simp add: length_hex_digits)
  then show "length (format_0x width n) = width"
    using assms(1) by (simp add: format_0x_def)
  show "set (format_0x width n) \<subseteq> set ''0123456789abcdef''"
    using assms(1) set_hex_digits [of "nat n"] by (auto simp: format_0x_def)
  show "int (hex_value (format_0x width n)) = n"
    using assms(1) by (simp add: format_0x_def hex_value_zeros hex_value_hex_digits)
qed

lemma event_dict_of_no_trace_fields:
  "''trace_id'' \<notin> dom (event_dict_of call)" "''span_id'' \<notin> dom (event_dict_of call)"
  by (cases call; simp)+

text \<open>
  Claim C7. For every log emission of the program: when a valid span context is active,
  the record carries \<open>trace_id\<close>, the 128-bit trace identifier as a string of 32
  lowercase hexadecimal digits that reads back as the identifier, and \<open>span_id\<close>, the
  64-bit span identifier as a string of 16 such digits (so does the processor on any
  event dictionary, every other field staying as it was). When no valid context is
  active, both fields are absent from the record, which is the event dictionary of the
  call; on any event dictionary the processor then returns what it was given.
\<close>

theorem trace_fields_injected:
  "(is_valid c \<and> 0 \<le> trace_id c \<and> trace_id c < 2 ^ 128 \<and> 0 \<le> span_id c \<and> span_id c < 2 ^ 64 \<longrightarrow>
      emit (Some c) call ''trace_id'' = Some (PyStr (format_0x 32 (trace_id c))) \<and>
      emit (Some c) call ''span_id'' = Some (PyStr (format_0x 16 (span_id c))) \<and>
      add_trace_context (Some c) event_dict ''trace_id'' = Some (PyStr (format_0x 32 (trace_id c))) \<and>
      add_trace_context (Some c) event_dict ''span_id'' = Some (PyStr (format_0x 16 (span_id c))) \<and>
      length (format_0x 32 (trace_id c)) = 32 \<and>
      length (format_0x 16 (span_id c)) = 16 \<and>
      set (format_0x 32 (trace_id c)) \<subseteq> set ''0123456789abcdef'' \<and>
      set (format_0x 16 (span_id c)) \<subseteq> set ''0123456789abcdef'' \<and>
      int (hex_value (format_0x 32 (trace_id c))) = trace_id c \<and>
      int (hex_value (format_0x 16 (span_id c))) = span_id c) \<and>
   (is_valid c \<and> field \<noteq> ''trace_id'' \<and> field \<noteq> ''span_id'' \<longrightarrow>
      add_trace_context (Some c) event_dict field = event_dict field) \<and>
   ((case ctx of None \<Rightarrow> True | Some c' \<Rightarrow> \<not> is_valid c') \<longrightarrow>
      ''trace_id'' \<notin> dom (emit ctx call) \<and> ''span_id'' \<notin> dom (emit ctx call) \<and>
      emit ctx call = event_dict_of call \<and>
      add_trace_context ctx event_dict = event_dict)"
proof (intro conjI impI)
  assume v: "is_valid c \<and> 0 \<le> trace_id c \<and> trace_id c < 2 ^ 128 \<and> 0 \<le> span_id c \<and> span_id c < 2 ^ 64"
  have t: "trace_id c < 16 ^ 32" and s: "span_id c < 16 ^ 16"
    using v by simp_all
  have nn: "0 \<le> trace_id c" "0 \<le> span_id c"
    using v by simp_all
  show "add_trace_context (Some c) event_dict ''trace_id'' = Some (PyStr (format_0x 32 (trace_id c)))"
    and "add_trace_context (Some c) event_dict ''span_id'' = Some (PyStr (format_0x 16 (span_id c)))"
    and "emit (Some c) call ''trace_id'' = Some (PyStr (format_0x 32 (trace_id c)))"
    and "emit (Some c) call ''span_id'' = Some (PyStr (format_0x 16 (span_id c)))"
    using v by (simp_all add: emit_def add_trace_context_def)
  show "length (format_0x 32 (trace_id c)) = 32"
    and "set (format_0x 32 (trace_id c)) \<subseteq> set ''0123456789abcdef''"
    and "int (hex_value (format_0x 32 (trace_id c))) = trace_id c"
    using format_0x_nonneg [OF nn(1) t] by simp_all
  show "length (format_0x 16 (span_id c)) = 16"
    and "set (format_0x 16 (span_id c)) \<subseteq> set ''0123456789abcdef''"
    and "int (hex_value (format_0x 16 (span_id c))) = span_id c"
    using format_0x_nonneg [OF nn(2) s] by simp_all
next
  assume "is_valid c \<and> field \<noteq> ''trace_id'' \<and> field \<noteq> ''span_id''"
  then show "add_trace_context (Some c) event_dict field = event_dict field"
    by (simp add: add_trace_context_def)
next
  assume n: "case ctx of None \<Rightarrow> True | Some c' \<Rightarrow> \<not> is_valid c'"
  then show u: "add_trace_context ctx event_dict = event_dict" for event_dict
    by (simp add: add_trace_context_def split: option.splits)
  then show e: "emit ctx call = event_dict_of call"
    by (simp add: emit_def)
  show "''trace_id'' \<notin> dom (emit ctx call)" and "''span_id'' \<notin> dom (emit ctx call)"
    unfolding e by (rule event_dict_of_no_trace_fields)+
qed

text \<open>
  A \<^verbatim>\<open>downstream_error\<close> record under the identifiers of a sampled trace, and a
  \<^verbatim>\<open>work_done\<close> record under an invalid context and under no context.
\<close>

theorem trace_fields_injected_witness:
  "emit
     (Some \<lparr>trace_id = 0x0af7651916cd43dd8448eb211c80319c, span_id = 0xb7ad6b7169203331, is_valid = True\<rparr>)
     (Downstream_error ''timeout'') =
   [''error'' \<mapsto> PyStr ''timeout'', ''event'' \<mapsto> PyStr ''downstream_error'',
    ''trace_id'' \<mapsto> PyStr ''0af7651916cd43dd8448eb211c80319c'',
    ''span_id'' \<mapsto> PyStr ''b7ad6b7169203331''] \<and>
   length ''0af7651916cd43dd8448eb211c80319c'' = 32 \<and>
   length ''b7ad6b7169203331'' = 16 \<and>
   emit (Some \<lparr>trace_id = 0, span_id = 0, is_valid = False\<rparr>) (Work_done 100 0 (1/10) 4096) =
     [''cpu_ms'' \<mapsto> PyInt 100, ''mem_mb'' \<mapsto> PyInt 0, ''elapsed'' \<mapsto> PyFloat (1/10),
      ''iters'' \<mapsto> PyInt 4096, ''event'' \<mapsto> PyStr ''work_done''] \<and>
   ''trace_id'' \<notin> dom (emit None (Work_done 100 0 (1/10) 4096)) \<and>
   ''span_id'' \<notin> dom (emit None (Work_done 100 0 (1/10) 4096)) \<and>
   add_trace_context None [''event'' \<mapsto> PyStr ''work_done''] = [''event'' \<mapsto> PyStr ''work_done'']"
proof -
  let ?c = "\<lparr>trace_id = 0x0af7651916cd43dd8448eb211c80319c, span_id = 0xb7ad6b7169203331, is_valid = True\<rparr>"
  let ?i = "\<lparr>trace_id = 0, span_id = 0, is_valid = False\<rparr>"
  let ?call = "Downstream_error ''timeout''"
  let ?work = "Work_done 100 0 (1/10) 4096"
  let ?d = "event_dict_of ?call"
  have f: "format_0x 32 0x0af7651916cd43dd8448eb211c80319c = ''0af7651916cd43dd8448eb211c80319c''"
          "format_0x 16 0xb7ad6b7169203331 = ''b7ad6b7169203331''"
    by (simp_all add: format_0x_def hex_digits.simps)
  have v: "is_valid ?c \<and> 0 \<le> trace_id ?c \<and> trace_id ?c < 2 ^ 128 \<and> 0 \<le> span_id ?c \<and> span_id ?c < 2 ^ 64"
    by simp
  have a: "emit (Some ?c) ?call ''trace_id'' = Some (PyStr ''0af7651916cd43dd8448eb211c80319c'')"
          "emit (Some ?c) ?call ''span_id'' = Some (PyStr ''b7ad6b7169203331'')"
          "length (format_0x 32 (trace_id ?c)) = 32"
          "length (format_0x 16 (span_id ?c)) = 16"
    using trace_fields_injected [where c = ?c and call = ?call] v f by simp_all
  have o: "emit (Some ?c) ?call field = ?d field"
    if "field \<noteq> ''trace_id''" "field \<noteq> ''span_id''" for field
    using trace_fields_injected [where c = ?c and event_dict = ?d and field = field] that
    by (simp add: emit_def)
  have e: "emit (Some ?c) ?call =
           [''error'' \<mapsto> PyStr ''timeout'', ''event'' \<mapsto> PyStr ''downstream_error'',
            ''trace_id'' \<mapsto> PyStr ''0af7651916cd43dd8448eb211c80319c'',
            ''span_id'' \<mapsto> PyStr ''b7ad6b7169203331'']"
  proof
    fix field
    show "emit (Some ?c) ?call field =
           [''error'' \<mapsto> PyStr ''timeout'', ''event'' \<mapsto> PyStr ''downstream_error'',
            ''trace_id'' \<mapsto> PyStr ''0af7651916cd43dd8448eb211c80319c'',
            ''span_id'' \<mapsto> PyStr ''b7ad6b7169203331''] field"
      using a(1,2) o [of field] by (cases "field = ''trace_id'' \<or> field = ''span_id''") auto
  qed
  have n1: "emit (Some ?i) ?work = event_dict_of ?work"
    using trace_fields_injected [where ctx = "Some ?i" and call = ?work]
    by simp
  have n2: "''trace_id'' \<notin> dom (emit None ?work)" "''span_id'' \<notin> dom (emit None ?work)"
    using trace_fields_injected [where ctx = None and call = ?work]
    by simp_all
  have n3: "add_trace_context None [''event'' \<mapsto> PyStr ''work_done''] = [''event'' \<mapsto> PyStr ''work_done'']"
    using trace_fields_injected [where ctx = None and event_dict = "[''event'' \<mapsto> PyStr ''work_done'']"]
    by simp
  from e a(3,4) f n1 n2 n3 show ?thesis
    by simp
qed

end
